theory Spec2Isabelle
  imports Main
begin

section \<open>Scraper configuration: loading, capability projection and dispatch\<close>

text \<open>
  A shallow embedding of \<^verbatim>\<open>pkg/scraper/config.go\<close>. Go strings are byte sequences and
  are modelled by \<^typ>\<open>string\<close>; a nil pointer, a nil function value and a nil error are
  \<^term>\<open>None\<close>. The value types of the \<^verbatim>\<open>models\<close> package that the code only passes
  around are type parameters: \<open>'p\<close> is \<^verbatim>\<open>models.ScrapedPerformer\<close>, \<open>'q\<close> is
  \<^verbatim>\<open>models.ScrapedPerformerInput\<close>, \<open>'s\<close> is \<^verbatim>\<open>models.ScrapedScene\<close>, \<open>'t\<close> is
  \<^verbatim>\<open>models.SceneUpdateInput\<close> and \<open>'e\<close> is the type of non-nil \<^verbatim>\<open>error\<close> values.
\<close>

subsection \<open>Go library functions the code calls\<close>

text \<open>\<^verbatim>\<open>strings.HasPrefix(s, prefix)\<close>.\<close>

fun HasPrefix :: "string \<Rightarrow> string \<Rightarrow> bool" where
  "HasPrefix s [] = True"
| "HasPrefix [] (p # ps) = False"
| "HasPrefix (c # cs) (p # ps) = (c = p \<and> HasPrefix cs ps)"

text \<open>\<^verbatim>\<open>strings.Contains(s, substr)\<close>: \<open>substr\<close> occurs in \<open>s\<close> at some byte offset.\<close>

fun Contains :: "string \<Rightarrow> string \<Rightarrow> bool" where
  "Contains [] substr = (substr = [])"
| "Contains (c # cs) substr = (HasPrefix (c # cs) substr \<or> Contains cs substr)"

text \<open>
  \<^verbatim>\<open>strings.LastIndex(s, substr)\<close>: the byte offset of the last occurrence of \<open>substr\<close> in
  \<open>s\<close>, or \<open>-1\<close> when there is none.
\<close>

fun LastIndex :: "string \<Rightarrow> string \<Rightarrow> int" where
  "LastIndex [] substr = (if substr = [] then 0 else - 1)"
| "LastIndex (c # cs) substr =
     (let r = LastIndex cs substr
      in if 0 \<le> r then r + 1 else if HasPrefix (c # cs) substr then 0 else - 1)"

text \<open>
  The slice expression \<^verbatim>\<open>s[:n]\<close> on a string: the first \<open>n\<close> bytes; it panics at run time
  (\<^term>\<open>None\<close>) unless \<open>0 \<le> n \<le> len(s)\<close>.
\<close>

definition sliceTo :: "string \<Rightarrow> int \<Rightarrow> string option" where
  "sliceTo s n = (if 0 \<le> n \<and> n \<le> int (length s) then Some (take (nat n) s) else None)"

text \<open>
  \<^verbatim>\<open>filepath.Base(path)\<close> where the path separator is \<open>/\<close> and there are no volume names:
  the empty path gives \<open>.\<close>, trailing separators are stripped, the last element is
  kept, and a path of separators only gives \<open>/\<close>.
\<close>

definition Base :: "string \<Rightarrow> string" where
  "Base path =
     (if path = [] then ''.''
      else let stripped = rev (dropWhile (\<lambda>c. c = CHR ''/'') (rev path));
               element = rev (takeWhile (\<lambda>c. c \<noteq> CHR ''/'') (rev stripped))
           in if element = [] then ''/'' else element)"

subsection \<open>Data model\<close>

definition scraperActionScript :: string where
  "scraperActionScript = ''script''"


record scraperTypeConfig =
  Action :: string
  Script :: "string list"

text \<open>
  A handler returns the Go pair \<^verbatim>\<open>(result, error)\<close>; either component may be nil.
\<close>

type_synonym ('i, 'r, 'e) scrapeFunc = "scraperTypeConfig \<Rightarrow> 'i \<Rightarrow> 'r option \<times> 'e option"

text \<open>
  A struct that embeds another one is a record extension: the promoted fields
  (\<^verbatim>\<open>c.Action\<close>) are the parent's selectors, and the embedded value
  (\<^verbatim>\<open>c.scraperTypeConfig\<close>) is \<^term>\<open>scraperTypeConfig.truncate c\<close>.
\<close>

record ('p, 'e) performerByNameConfig = scraperTypeConfig +
  performScrape :: "(string, 'p list, 'e) scrapeFunc option"

record ('q, 'p, 'e) performerByFragmentConfig = scraperTypeConfig +
  performScrape :: "('q, 'p, 'e) scrapeFunc option"

record scrapeByURLConfig = scraperTypeConfig +
  URL :: "string list"

record ('p, 'e) scrapePerformerByURLConfig = scrapeByURLConfig +
  performScrape :: "(string, 'p, 'e) scrapeFunc option"

record ('t, 's, 'e) sceneByFragmentConfig = scraperTypeConfig +
  performScrape :: "('t, 's, 'e) scrapeFunc option"

record ('s, 'e) scrapeSceneByURLConfig = scrapeByURLConfig +
  performScrape :: "(string, 's, 'e) scrapeFunc option"

text \<open>
  \<^verbatim>\<open>models.Scraper\<close>, \<^verbatim>\<open>models.ScraperSpec\<close> and \<^verbatim>\<open>models.ScrapeType\<close> belong to the
  \<^verbatim>\<open>models\<close> package; the fields and constants are the ones \<^verbatim>\<open>toScraper\<close> uses. A nil
  slice and an empty slice are both \<^term>\<open>[]\<close>.
\<close>

datatype ScrapeType = ScrapeTypeName | ScrapeTypeFragment | ScrapeTypeURL

record ScraperSpec =
  Urls :: "string list"
  SupportedScrapes :: "ScrapeType list"

record Scraper =
  ID :: string
  Name :: string
  Performer :: "ScraperSpec option"
  Scene :: "ScraperSpec option"

text \<open>
  The two URL rule lists are slices of pointers. A value of this record is a definition
  in which none of these pointers is nil. The decoder can leave a nil element in a rule
  list (\<^verbatim>\<open>performerByURL: [~]\<close>); the loader then panics in \<^verbatim>\<open>initialiseConfigs\<close>, so
  such a struct never leaves the loader. It is an outcome of the decoder of its own
  in the loader below, not a value of this record.
\<close>

record ('p, 'q, 's, 't, 'e) scraperConfig =
  ID :: string
  Name :: string
  PerformerByName :: "('p, 'e) performerByNameConfig option"
  PerformerByFragment :: "('q, 'p, 'e) performerByFragmentConfig option"
  PerformerByURL :: "('p, 'e) scrapePerformerByURLConfig list"
  SceneByFragment :: "('t, 's, 'e) sceneByFragmentConfig option"
  SceneByURL :: "('s, 'e) scrapeSceneByURLConfig list"

text \<open>
  The five script-backed handlers that \<^verbatim>\<open>resolveFn\<close> binds are defined in another file
  of the package; they are parameters of the model.
\<close>

record ('p, 'q, 's, 't, 'e) scriptScrapers =
  scrapePerformerNamesScript :: "(string, 'p list, 'e) scrapeFunc"
  scrapePerformerFragmentScript :: "('q, 'p, 'e) scrapeFunc"
  scrapePerformerURLScript :: "(string, 'p, 'e) scrapeFunc"
  scrapeSceneFragmentScript :: "('t, 's, 'e) scrapeFunc"
  scrapeSceneURLScript :: "(string, 's, 'e) scrapeFunc"

subsection \<open>Action resolution\<close>

definition performerByNameConfig_resolveFn ::
  "(string, 'p list, 'e) scrapeFunc \<Rightarrow> ('p, 'e) performerByNameConfig \<Rightarrow> ('p, 'e) performerByNameConfig"
where
  "performerByNameConfig_resolveFn script c =
     (if Action c = scraperActionScript
      then c\<lparr>performerByNameConfig.performScrape := Some script\<rparr> else c)"

definition performerByFragmentConfig_resolveFn ::
  "('q, 'p, 'e) scrapeFunc \<Rightarrow> ('q, 'p, 'e) performerByFragmentConfig
     \<Rightarrow> ('q, 'p, 'e) performerByFragmentConfig"
where
  "performerByFragmentConfig_resolveFn script c =
     (if Action c = scraperActionScript
      then c\<lparr>performerByFragmentConfig.performScrape := Some script\<rparr> else c)"

definition scrapePerformerByURLConfig_resolveFn ::
  "(string, 'p, 'e) scrapeFunc \<Rightarrow> ('p, 'e) scrapePerformerByURLConfig
     \<Rightarrow> ('p, 'e) scrapePerformerByURLConfig"
where
  "scrapePerformerByURLConfig_resolveFn script c =
     (if Action c = scraperActionScript
      then c\<lparr>scrapePerformerByURLConfig.performScrape := Some script\<rparr> else c)"

definition sceneByFragmentConfig_resolveFn ::
  "('t, 's, 'e) scrapeFunc \<Rightarrow> ('t, 's, 'e) sceneByFragmentConfig
     \<Rightarrow> ('t, 's, 'e) sceneByFragmentConfig"
where
  "sceneByFragmentConfig_resolveFn script c =
     (if Action c = scraperActionScript
      then c\<lparr>sceneByFragmentConfig.performScrape := Some script\<rparr> else c)"

definition scrapeSceneByURLConfig_resolveFn ::
  "(string, 's, 'e) scrapeFunc \<Rightarrow> ('s, 'e) scrapeSceneByURLConfig
     \<Rightarrow> ('s, 'e) scrapeSceneByURLConfig"
where
  "scrapeSceneByURLConfig_resolveFn script c =
     (if Action c = scraperActionScript
      then c\<lparr>scrapeSceneByURLConfig.performScrape := Some script\<rparr> else c)"

text \<open>
  \<^verbatim>\<open>initialiseConfigs\<close> updates the operation configs through their pointers; the model
  returns the updated definition. This is the pass on a definition whose rule
  pointers are all non-nil; on a nil rule element the call \<^verbatim>\<open>s.resolveFn()\<close> reads
  \<^verbatim>\<open>c.Action\<close> through the nil pointer and panics, which the loader below accounts for.
\<close>

definition initialiseConfigs ::
  "('p, 'q, 's, 't, 'e) scriptScrapers \<Rightarrow> ('p, 'q, 's, 't, 'e) scraperConfig
     \<Rightarrow> ('p, 'q, 's, 't, 'e) scraperConfig"
where
  "initialiseConfigs scripts c =
     c\<lparr>PerformerByName :=
          map_option (performerByNameConfig_resolveFn (scrapePerformerNamesScript scripts))
            (PerformerByName c),
       PerformerByFragment :=
          map_option (performerByFragmentConfig_resolveFn (scrapePerformerFragmentScript scripts))
            (PerformerByFragment c),
       PerformerByURL :=
          map (scrapePerformerByURLConfig_resolveFn (scrapePerformerURLScript scripts))
            (PerformerByURL c),
       SceneByFragment :=
          map_option (sceneByFragmentConfig_resolveFn (scrapeSceneFragmentScript scripts))
            (SceneByFragment c),
       SceneByURL :=
          map (scrapeSceneByURLConfig_resolveFn (scrapeSceneURLScript scripts))
            (SceneByURL c)\<rparr>"

subsection \<open>Loader\<close>

text \<open>
  A call of the loader ends in one of three ways: it returns an error value, it returns
  a definition, or a run-time panic unwinds it.
\<close>

datatype panic = SliceBoundsOutOfRange | NilPointerDereference

datatype 'e failure = Error 'e | Panic panic

text \<open>
  \<^verbatim>\<open>os.Open\<close> and the strict YAML decoder are parameters: \<open>os_Open path\<close> is the error
  or the opened file, and \<open>Decode file\<close> is the error or what the decoder leaves behind
  \<^verbatim>\<open>ret\<close>, a pointer that the decoder receives by reference. That is \<open>Some c\<close> when
  \<^verbatim>\<open>ret\<close> and every element of its two URL rule lists are non-nil, and \<^term>\<open>None\<close> when
  one of these pointers is nil (a \<^verbatim>\<open>null\<close> document, or a rule list with a \<^verbatim>\<open>null\<close>
  element). In the second case the loader dereferences a nil pointer after it has cut
  the identifier: at \<^verbatim>\<open>ret.ID = id\<close> when \<^verbatim>\<open>ret\<close> is nil, and in \<^verbatim>\<open>initialiseConfigs\<close> at
  \<^verbatim>\<open>s.resolveFn()\<close> when a rule element is nil. Both are the same panic.
\<close>

definition loadScraperFromYAML ::
  "(string \<Rightarrow> 'e + 'file) \<Rightarrow> ('file \<Rightarrow> 'e + ('p, 'q, 's, 't, 'e) scraperConfig option)
     \<Rightarrow> ('p, 'q, 's, 't, 'e) scriptScrapers \<Rightarrow> string
     \<Rightarrow> 'e failure + ('p, 'q, 's, 't, 'e) scraperConfig"
where
  "loadScraperFromYAML os_Open Decode scripts path =
     (case os_Open path of
        Inl err \<Rightarrow> Inl (Error err)
      | Inr file \<Rightarrow>
          (case Decode file of
             Inl err \<Rightarrow> Inl (Error err)
           | Inr ret \<Rightarrow>
               (let id = Base path
                in case sliceTo id (LastIndex id ''.'') of
                     None \<Rightarrow> Inl (Panic SliceBoundsOutOfRange)
                   | Some id' \<Rightarrow>
                       (case ret of
                          None \<Rightarrow> Inl (Panic NilPointerDereference)
                        | Some c \<Rightarrow> Inr (initialiseConfigs scripts (c\<lparr>ID := id'\<rparr>))))))"

subsection \<open>Capability projector\<close>

text \<open>
  The two local variables \<^verbatim>\<open>performer\<close> and \<^verbatim>\<open>scene\<close> of \<^verbatim>\<open>toScraper\<close> after the
  statements that fill them; \<^verbatim>\<open>append\<close> adds at the end.
\<close>

definition toScraper_performer :: "('p, 'q, 's, 't, 'e) scraperConfig \<Rightarrow> ScraperSpec" where
  "toScraper_performer c =
     (let performer = \<lparr>Urls = [], SupportedScrapes = []\<rparr>;
          performer =
            (if PerformerByName c \<noteq> None
             then performer\<lparr>SupportedScrapes := SupportedScrapes performer @ [ScrapeTypeName]\<rparr>
             else performer);
          performer =
            (if PerformerByFragment c \<noteq> None
             then performer\<lparr>SupportedScrapes := SupportedScrapes performer @ [ScrapeTypeFragment]\<rparr>
             else performer)
      in if length (PerformerByURL c) > 0
         then foldl (\<lambda>acc v. acc\<lparr>Urls := Urls acc @ URL v\<rparr>)
                (performer\<lparr>SupportedScrapes := SupportedScrapes performer @ [ScrapeTypeURL]\<rparr>)
                (PerformerByURL c)
         else performer)"

definition toScraper_scene :: "('p, 'q, 's, 't, 'e) scraperConfig \<Rightarrow> ScraperSpec" where
  "toScraper_scene c =
     (let scene = \<lparr>Urls = [], SupportedScrapes = []\<rparr>;
          scene =
            (if SceneByFragment c \<noteq> None
             then scene\<lparr>SupportedScrapes := SupportedScrapes scene @ [ScrapeTypeFragment]\<rparr>
             else scene)
      in if length (SceneByURL c) > 0
         then foldl (\<lambda>acc v. acc\<lparr>Urls := Urls acc @ URL v\<rparr>)
                (scene\<lparr>SupportedScrapes := SupportedScrapes scene @ [ScrapeTypeURL]\<rparr>)
                (SceneByURL c)
         else scene)"

definition toScraper :: "('p, 'q, 's, 't, 'e) scraperConfig \<Rightarrow> Scraper" where
  "toScraper c =
     (let ret = \<lparr>Scraper.ID = ID c, Scraper.Name = Name c, Performer = None, Scene = None\<rparr>;
          performer = toScraper_performer c;
          ret = (if length (SupportedScrapes performer) > 0
                 then ret\<lparr>Performer := Some performer\<rparr> else ret);
          scene = toScraper_scene c;
          ret = (if length (SupportedScrapes scene) > 0
                 then ret\<lparr>Scene := Some scene\<rparr> else ret)
      in ret)"

definition supportsPerformers :: "('p, 'q, 's, 't, 'e) scraperConfig \<Rightarrow> bool" where
  "supportsPerformers c =
     (PerformerByName c \<noteq> None \<or> PerformerByFragment c \<noteq> None \<or> length (PerformerByURL c) > 0)"

definition supportsScenes :: "('p, 'q, 's, 't, 'e) scraperConfig \<Rightarrow> bool" where
  "supportsScenes c = (SceneByFragment c \<noteq> None \<or> length (SceneByURL c) > 0)"

subsection \<open>URL matching\<close>

text \<open>
  \<^verbatim>\<open>matchesURL\<close> is a method of the embedded \<^verbatim>\<open>scrapeByURLConfig\<close>, so it applies to
  both kinds of URL rule.
\<close>

fun matchesURL_loop :: "string list \<Rightarrow> string \<Rightarrow> bool" where
  "matchesURL_loop [] url = False"
| "matchesURL_loop (thisURL # rest) url =
     (if Contains url thisURL then True else matchesURL_loop rest url)"

definition matchesURL :: "'a scrapeByURLConfig_scheme \<Rightarrow> string \<Rightarrow> bool" where
  "matchesURL c url = matchesURL_loop (URL c) url"

fun matchesPerformerURL_loop :: "('p, 'e) scrapePerformerByURLConfig list \<Rightarrow> string \<Rightarrow> bool" where
  "matchesPerformerURL_loop [] url = False"
| "matchesPerformerURL_loop (scraper # rest) url =
     (if matchesURL scraper url then True else matchesPerformerURL_loop rest url)"

definition matchesPerformerURL :: "('p, 'q, 's, 't, 'e) scraperConfig \<Rightarrow> string \<Rightarrow> bool" where
  "matchesPerformerURL c url = matchesPerformerURL_loop (PerformerByURL c) url"

fun matchesSceneURL_loop :: "('s, 'e) scrapeSceneByURLConfig list \<Rightarrow> string \<Rightarrow> bool" where
  "matchesSceneURL_loop [] url = False"
| "matchesSceneURL_loop (scraper # rest) url =
     (if matchesURL scraper url then True else matchesSceneURL_loop rest url)"

definition matchesSceneURL :: "('p, 'q, 's, 't, 'e) scraperConfig \<Rightarrow> string \<Rightarrow> bool" where
  "matchesSceneURL c url = matchesSceneURL_loop (SceneByURL c) url"

subsection \<open>Dispatcher\<close>

definition ScrapePerformerNames ::
  "('p, 'q, 's, 't, 'e) scraperConfig \<Rightarrow> string \<Rightarrow> 'p list option \<times> 'e option"
where
  "ScrapePerformerNames c name =
     (if PerformerByName c \<noteq> None
         \<and> performerByNameConfig.performScrape (the (PerformerByName c)) \<noteq> None
      then the (performerByNameConfig.performScrape (the (PerformerByName c)))
             (scraperTypeConfig.truncate (the (PerformerByName c))) name
      else (None, None))"

definition ScrapePerformer ::
  "('p, 'q, 's, 't, 'e) scraperConfig \<Rightarrow> 'q \<Rightarrow> 'p option \<times> 'e option"
where
  "ScrapePerformer c scrapedPerformer =
     (if PerformerByFragment c \<noteq> None
         \<and> performerByFragmentConfig.performScrape (the (PerformerByFragment c)) \<noteq> None
      then the (performerByFragmentConfig.performScrape (the (PerformerByFragment c)))
             (scraperTypeConfig.truncate (the (PerformerByFragment c))) scrapedPerformer
      else (None, None))"

definition ScrapeScene ::
  "('p, 'q, 's, 't, 'e) scraperConfig \<Rightarrow> 't \<Rightarrow> 's option \<times> 'e option"
where
  "ScrapeScene c scene =
     (if SceneByFragment c \<noteq> None
         \<and> sceneByFragmentConfig.performScrape (the (SceneByFragment c)) \<noteq> None
      then the (sceneByFragmentConfig.performScrape (the (SceneByFragment c)))
             (scraperTypeConfig.truncate (the (SceneByFragment c))) scene
      else (None, None))"

text \<open>
  The loop of \<^verbatim>\<open>ScrapePerformerURL\<close> from the rule at position \<open>i\<close> on. A handler is
  an external call, so next to the returned pair the model records the positions of
  the rules whose handler the loop called, in call order.
\<close>

fun ScrapePerformerURL_loop ::
  "nat \<Rightarrow> ('p, 'e) scrapePerformerByURLConfig list \<Rightarrow> string
     \<Rightarrow> ('p option \<times> 'e option) \<times> nat list"
where
  "ScrapePerformerURL_loop i [] url = ((None, None), [])"
| "ScrapePerformerURL_loop i (scraper # rest) url =
     (if matchesURL scraper url \<and> scrapePerformerByURLConfig.performScrape scraper \<noteq> None
      then (case the (scrapePerformerByURLConfig.performScrape scraper)
                   (scraperTypeConfig.truncate scraper) url of
              (ret, err) \<Rightarrow>
                if err \<noteq> None then ((None, err), [i])
                else if ret \<noteq> None then ((ret, None), [i])
                else (case ScrapePerformerURL_loop (Suc i) rest url of
                        (out, calls) \<Rightarrow> (out, i # calls)))
      else ScrapePerformerURL_loop (Suc i) rest url)"

definition ScrapePerformerURL ::
  "('p, 'q, 's, 't, 'e) scraperConfig \<Rightarrow> string \<Rightarrow> 'p option \<times> 'e option"
where
  "ScrapePerformerURL c url = fst (ScrapePerformerURL_loop 0 (PerformerByURL c) url)"

definition ScrapePerformerURL_calls :: "('p, 'q, 's, 't, 'e) scraperConfig \<Rightarrow> string \<Rightarrow> nat list"
where
  "ScrapePerformerURL_calls c url = snd (ScrapePerformerURL_loop 0 (PerformerByURL c) url)"

fun ScrapeSceneURL_loop ::
  "nat \<Rightarrow> ('s, 'e) scrapeSceneByURLConfig list \<Rightarrow> string
     \<Rightarrow> ('s option \<times> 'e option) \<times> nat list"
where
  "ScrapeSceneURL_loop i [] url = ((None, None), [])"
| "ScrapeSceneURL_loop i (scraper # rest) url =
     (if matchesURL scraper url \<and> scrapeSceneByURLConfig.performScrape scraper \<noteq> None
      then (case the (scrapeSceneByURLConfig.performScrape scraper)
                   (scraperTypeConfig.truncate scraper) url of
              (ret, err) \<Rightarrow>
                if err \<noteq> None then ((None, err), [i])
                else if ret \<noteq> None then ((ret, None), [i])
                else (case ScrapeSceneURL_loop (Suc i) rest url of
                        (out, calls) \<Rightarrow> (out, i # calls)))
      else ScrapeSceneURL_loop (Suc i) rest url)"

definition ScrapeSceneURL ::
  "('p, 'q, 's, 't, 'e) scraperConfig \<Rightarrow> string \<Rightarrow> 's option \<times> 'e option"
where
  "ScrapeSceneURL c url = fst (ScrapeSceneURL_loop 0 (SceneByURL c) url)"

definition ScrapeSceneURL_calls :: "('p, 'q, 's, 't, 'e) scraperConfig \<Rightarrow> string \<Rightarrow> nat list"
where
  "ScrapeSceneURL_calls c url = snd (ScrapeSceneURL_loop 0 (SceneByURL c) url)"

subsection \<open>Example definitions\<close>

text \<open>
  Concrete inputs for the examples below, with natural numbers for the scraped values
  and strings for the errors. \<open>example_decoded\<close> is what decoding leaves for a source
  whose only operation block is \<^verbatim>\<open>performerByName\<close> with the \<^verbatim>\<open>script\<close> action;
  \<open>example_unknown_action\<close> is the same source with the action tag \<^verbatim>\<open>foo\<close>.
\<close>

definition example_scripts :: "(nat, nat, nat, nat, string) scriptScrapers" where
  "example_scripts =
     \<lparr>scrapePerformerNamesScript = (\<lambda>c name. (Some [length name], None)),
      scrapePerformerFragmentScript = (\<lambda>c x. (Some x, None)),
      scrapePerformerURLScript = (\<lambda>c url. (Some (length url), None)),
      scrapeSceneFragmentScript = (\<lambda>c x. (Some x, None)),
      scrapeSceneURLScript = (\<lambda>c url. (Some (length url), None))\<rparr>"

definition example_decoded :: "(nat, nat, nat, nat, string) scraperConfig" where
  "example_decoded =
     \<lparr>ID = [], Name = ''My Site'',
      PerformerByName =
        Some \<lparr>Action = ''script'', Script = [''python'', ''mysite.py''],
              performerByNameConfig.performScrape = None\<rparr>,
      PerformerByFragment = None, PerformerByURL = [],
      SceneByFragment = None, SceneByURL = []\<rparr>"


text \<open>
  URL rules with given match strings whose bound handler returns a given pair, and a
  definition whose two rule lists are made of such rules.
\<close>

definition performer_rule ::
  "string list \<Rightarrow> nat option \<times> string option \<Rightarrow> (nat, string) scrapePerformerByURLConfig"
where
  "performer_rule urls outcome =
     \<lparr>Action = ''script'', Script = [], URL = urls,
      scrapePerformerByURLConfig.performScrape = Some (\<lambda>c url. outcome)\<rparr>"

definition scene_rule ::
  "string list \<Rightarrow> nat option \<times> string option \<Rightarrow> (nat, string) scrapeSceneByURLConfig"
where
  "scene_rule urls outcome =
     \<lparr>Action = ''script'', Script = [], URL = urls,
      scrapeSceneByURLConfig.performScrape = Some (\<lambda>c url. outcome)\<rparr>"

definition example_rules ::
  "(string list \<times> nat option \<times> string option) list
     \<Rightarrow> (nat, nat, nat, nat, string) scraperConfig"
where
  "example_rules rules =
     \<lparr>ID = ''mysite'', Name = ''My Site'',
      PerformerByName = None, PerformerByFragment = None,
      PerformerByURL = map (\<lambda>(urls, outcome). performer_rule urls outcome) rules,
      SceneByFragment = None,
      SceneByURL = map (\<lambda>(urls, outcome). scene_rule urls outcome) rules\<rparr>"

section \<open>Properties\<close>

subsection \<open>The library functions\<close>

lemma HasPrefix_iff: "HasPrefix s p \<longleftrightarrow> (\<exists>suf. s = p @ suf)"
  by (induction s p rule: HasPrefix.induct) auto

lemma Contains_iff: "Contains s u \<longleftrightarrow> (\<exists>pre suf. s = pre @ u @ suf)"
proof (induction s)
  case Nil
  then show ?case by auto
next
  case (Cons c cs)
  have "(\<exists>pre suf. c # cs = pre @ u @ suf) \<longleftrightarrow>
        (\<exists>suf. c # cs = u @ suf) \<or> (\<exists>pre suf. cs = pre @ u @ suf)"
  proof
    assume "\<exists>pre suf. c # cs = pre @ u @ suf"
    then obtain pre suf where e: "c # cs = pre @ u @ suf" by blast
    show "(\<exists>suf. c # cs = u @ suf) \<or> (\<exists>pre suf. cs = pre @ u @ suf)"
    proof (cases pre)
      case Nil
      with e show ?thesis by auto
    next
      case (Cons a pre')
      with e have "cs = pre' @ u @ suf" by simp
      then show ?thesis by blast
    qed
  next
    assume "(\<exists>suf. c # cs = u @ suf) \<or> (\<exists>pre suf. cs = pre @ u @ suf)"
    then show "\<exists>pre suf. c # cs = pre @ u @ suf"
    proof
      assume "\<exists>suf. c # cs = u @ suf"
      then obtain suf where "c # cs = [] @ u @ suf" by auto
      then show ?thesis by blast
    next
      assume "\<exists>pre suf. cs = pre @ u @ suf"
      then obtain pre suf where "cs = pre @ u @ suf" by blast
      then have "c # cs = (c # pre) @ u @ suf" by simp
      then show ?thesis by blast
    qed
  qed
  with Cons show ?case by (simp add: HasPrefix_iff)
qed

lemma LastIndex_ge: "- 1 \<le> LastIndex s u"
  by (induction s) (auto simp: Let_def)

lemma LastIndex_none: "LastIndex s [c] = - 1 \<longleftrightarrow> c \<notin> set s"
proof (induction s)
  case Nil
  show ?case by simp
next
  case (Cons a s)
  have "- 1 \<le> LastIndex s [c]" by (rule LastIndex_ge)
  with Cons show ?case by (auto simp: Let_def)
qed

lemma LastIndex_split:
  "0 \<le> LastIndex s [c] \<Longrightarrow>
   \<exists>pre post. s = pre @ c # post \<and> c \<notin> set post \<and> LastIndex s [c] = int (length pre)"
proof (induction s)
  case Nil
  then show ?case by simp
next
  case (Cons a s)
  show ?case
  proof (cases "0 \<le> LastIndex s [c]")
    case True
    with Cons.IH obtain pre post where
      "s = pre @ c # post" "c \<notin> set post" "LastIndex s [c] = int (length pre)" by blast
    with True have "a # s = (a # pre) @ c # post \<and> c \<notin> set post
        \<and> LastIndex (a # s) [c] = int (length (a # pre))"
      by (simp add: Let_def)
    then show ?thesis by blast
  next
    case False
    have "- 1 \<le> LastIndex s [c]" by (rule LastIndex_ge)
    with False have "LastIndex s [c] = - 1" by simp
    then have notin: "c \<notin> set s" by (simp add: LastIndex_none)
    from Cons.prems False have "a = c" by (auto simp: Let_def split: if_splits)
    with False notin have "a # s = [] @ c # s \<and> c \<notin> set s
        \<and> LastIndex (a # s) [c] = int (length ([]::string))"
      by (simp add: Let_def)
    then show ?thesis by blast
  qed
qed

text \<open>
  The identifier expression \<^verbatim>\<open>id[:strings.LastIndex(id, ".")]\<close>: it panics when the name
  has no \<open>.\<close>, and otherwise cuts the name before its last \<open>.\<close>.
\<close>

lemma stem_panics: "CHR ''.'' \<notin> set s \<Longrightarrow> sliceTo s (LastIndex s ''.'') = None"
proof -
  assume "CHR ''.'' \<notin> set s"
  then have "LastIndex s ''.'' = - 1" by (simp add: LastIndex_none)
  then show ?thesis by (simp add: sliceTo_def)
qed

lemma stem_split:
  assumes "sliceTo s (LastIndex s ''.'') = Some stem"
  shows "\<exists>ext. s = stem @ ''.'' @ ext \<and> CHR ''.'' \<notin> set ext"
proof -
  from assms have pos: "0 \<le> LastIndex s ''.''"
    and stem: "stem = take (nat (LastIndex s ''.'')) s"
    by (auto simp: sliceTo_def split: if_splits)
  from LastIndex_split [OF pos] obtain pre post where
    s: "s = pre @ CHR ''.'' # post" and post: "CHR ''.'' \<notin> set post"
    and n: "LastIndex s ''.'' = int (length pre)" by blast
  from stem n have "stem = take (length pre) s" by simp
  with s have "stem = pre" by simp
  with s post have "s = stem @ ''.'' @ post \<and> CHR ''.'' \<notin> set post" by simp
  then show ?thesis by blast
qed


subsection \<open>Loader\<close>

lemma initialiseConfigs_ID: "ID (initialiseConfigs scripts c) = ID c"
  by (simp add: initialiseConfigs_def)

lemma loadScraperFromYAML_Inr_iff:
  "loadScraperFromYAML os_Open Decode scripts path = Inr c \<longleftrightarrow>
     (\<exists>file d stem. os_Open path = Inr file \<and> Decode file = Inr (Some d)
        \<and> sliceTo (Base path) (LastIndex (Base path) ''.'') = Some stem
        \<and> c = initialiseConfigs scripts (d\<lparr>ID := stem\<rparr>))"
  by (auto simp: loadScraperFromYAML_def Let_def split: sum.splits option.splits)

text \<open>
  C1 (first half): a source path whose base filename contains no \<open>.\<close>, on a source that
  opens and decodes, should make the loader return a configuration error. The code
  does not: the slice expression that cuts the identifier gets the index \<open>-1\<close> and the
  loader panics instead of returning.
\<close>

theorem loadScraperFromYAML_no_separator_panics:
  assumes "CHR ''.'' \<notin> set (Base path)"
    and "os_Open path = Inr file"
    and "Decode file = Inr ret"
  shows "loadScraperFromYAML os_Open Decode scripts path = Inl (Panic SliceBoundsOutOfRange)"
  using assms by (simp add: loadScraperFromYAML_def Let_def stem_panics)

theorem loadScraperFromYAML_no_separator_panics_witness:
  "Base ''scrapers/mysite'' = ''mysite''
   \<and> loadScraperFromYAML (\<lambda>p. Inr p) (\<lambda>f. Inr (Some example_decoded)) example_scripts
       ''scrapers/mysite'' = Inl (Panic SliceBoundsOutOfRange)"
proof -
  have b: "Base ''scrapers/mysite'' = ''mysite''" by (simp add: Base_def)
  then have h: "CHR ''.'' \<notin> set (Base ''scrapers/mysite'')" by simp
  from loadScraperFromYAML_no_separator_panics [OF h, of "\<lambda>p. Inr p" "''scrapers/mysite''"
      "\<lambda>f. Inr (Some example_decoded)" "Some example_decoded" example_scripts] b
  show ?thesis by simp
qed

text \<open>
  C9: whenever the loader succeeds, the definition's identifier is the base filename
  of the source without its final extension: the base filename is the identifier,
  a \<open>.\<close>, and an extension without \<open>.\<close>. In particular a source named \<^verbatim>\<open>mysite.yml\<close>
  that opens and decodes is loaded with the identifier \<^verbatim>\<open>mysite\<close>.
\<close>

theorem loadScraperFromYAML_id_is_stem:
  "(loadScraperFromYAML os_Open Decode scripts path = Inr c \<longrightarrow>
      (\<exists>ext. Base path = ID c @ ''.'' @ ext \<and> CHR ''.'' \<notin> set ext))
   \<and> (os_Open path = Inr file \<and> Decode file = Inr (Some d) \<and> Base path = ''mysite.yml'' \<longrightarrow>
      (\<exists>c'. loadScraperFromYAML os_Open Decode scripts path = Inr c' \<and> ID c' = ''mysite''))"
proof (intro conjI impI)
  assume "loadScraperFromYAML os_Open Decode scripts path = Inr c"
  then obtain d' stem where
    stem: "sliceTo (Base path) (LastIndex (Base path) ''.'') = Some stem"
    and c: "c = initialiseConfigs scripts (d'\<lparr>ID := stem\<rparr>)"
    by (auto simp: loadScraperFromYAML_Inr_iff)
  from c have "ID c = stem" by (simp add: initialiseConfigs_ID)
  with stem_split [OF stem] show "\<exists>ext. Base path = ID c @ ''.'' @ ext \<and> CHR ''.'' \<notin> set ext"
    by simp
next
  assume a: "os_Open path = Inr file \<and> Decode file = Inr (Some d) \<and> Base path = ''mysite.yml''"
  have "sliceTo ''mysite.yml'' (LastIndex ''mysite.yml'' ''.'') = Some ''mysite''"
    by (simp add: sliceTo_def Let_def)
  with a have "loadScraperFromYAML os_Open Decode scripts path
      = Inr (initialiseConfigs scripts (d\<lparr>ID := ''mysite''\<rparr>))"
    by (simp add: loadScraperFromYAML_def Let_def)
  then show "\<exists>c'. loadScraperFromYAML os_Open Decode scripts path = Inr c' \<and> ID c' = ''mysite''"
    by (simp add: initialiseConfigs_ID)
qed

theorem loadScraperFromYAML_id_is_stem_witness:
  "loadScraperFromYAML (\<lambda>p. Inr p) (\<lambda>f. Inr (Some example_decoded)) example_scripts
       ''scrapers/my.site.yml''
     = Inr (initialiseConfigs example_scripts (example_decoded\<lparr>ID := ''my.site''\<rparr>))
   \<and> Base ''scrapers/my.site.yml'' = ''my.site'' @ ''.'' @ ''yml''
   \<and> (\<exists>c'. loadScraperFromYAML (\<lambda>p. Inr p) (\<lambda>f. Inr (Some example_decoded)) example_scripts
         ''mysite.yml'' = Inr c' \<and> ID c' = ''mysite'')"
proof -
  have l: "loadScraperFromYAML (\<lambda>p. Inr p) (\<lambda>f. Inr (Some example_decoded)) example_scripts
       ''scrapers/my.site.yml''
     = Inr (initialiseConfigs example_scripts (example_decoded\<lparr>ID := ''my.site''\<rparr>))"
    by (simp add: loadScraperFromYAML_def Base_def sliceTo_def Let_def)
  have b: "Base ''scrapers/my.site.yml'' = ''my.site'' @ ''.'' @ ''yml''"
    by (simp add: Base_def)
  have m: "Base ''mysite.yml'' = ''mysite.yml''" by (simp add: Base_def)
  from loadScraperFromYAML_id_is_stem [of "\<lambda>p. Inr p" "\<lambda>f. Inr (Some example_decoded)"
      example_scripts "''mysite.yml''" _ "''mysite.yml''" example_decoded] m
  have "\<exists>c'. loadScraperFromYAML (\<lambda>p. Inr p) (\<lambda>f. Inr (Some example_decoded)) example_scripts
         ''mysite.yml'' = Inr c' \<and> ID c' = ''mysite''"
    by simp
  with l b show ?thesis by blast
qed





subsection \<open>URL matching\<close>

lemma matchesURL_loop_iff:
  "matchesURL_loop us url \<longleftrightarrow> (\<exists>u\<in>set us. \<exists>pre suf. url = pre @ u @ suf)"
  by (induction us) (simp_all add: Contains_iff)

lemma matchesURL_iff:
  "matchesURL r url \<longleftrightarrow> (\<exists>u\<in>set (URL r). \<exists>pre suf. url = pre @ u @ suf)"
  by (simp add: matchesURL_def matchesURL_loop_iff)

lemma matchesPerformerURL_loop_iff:
  "matchesPerformerURL_loop rs url \<longleftrightarrow> (\<exists>r\<in>set rs. matchesURL r url)"
  by (induction rs) simp_all

lemma matchesSceneURL_loop_iff:
  "matchesSceneURL_loop rs url \<longleftrightarrow> (\<exists>r\<in>set rs. matchesURL r url)"
  by (induction rs) simp_all

text \<open>
  C5: a URL rule matches a candidate exactly when the candidate contains one of the
  rule's configured strings as a contiguous run of bytes, and a rule list matches
  exactly when one of its rules does. Rebinding or unbinding the handlers of the rules
  (the function \<open>h\<close>) does not change the answer, and an empty rule list never matches.
\<close>

theorem matchesURL_substring:
  "(matchesURL r url \<longleftrightarrow> (\<exists>u\<in>set (URL r). \<exists>pre suf. url = pre @ u @ suf))
   \<and> (matchesPerformerURL c url \<longleftrightarrow>
        (\<exists>r\<in>set (PerformerByURL c). \<exists>u\<in>set (URL r). \<exists>pre suf. url = pre @ u @ suf))
   \<and> (matchesSceneURL c url \<longleftrightarrow>
        (\<exists>r\<in>set (SceneByURL c). \<exists>u\<in>set (URL r). \<exists>pre suf. url = pre @ u @ suf))
   \<and> matchesPerformerURL
        (c\<lparr>PerformerByURL :=
             map (\<lambda>r. r\<lparr>scrapePerformerByURLConfig.performScrape := h r\<rparr>) (PerformerByURL c)\<rparr>) url
       = matchesPerformerURL c url
   \<and> matchesSceneURL
        (c\<lparr>SceneByURL :=
             map (\<lambda>r. r\<lparr>scrapeSceneByURLConfig.performScrape := h' r\<rparr>) (SceneByURL c)\<rparr>) url
       = matchesSceneURL c url
   \<and> \<not> matchesPerformerURL (c\<lparr>PerformerByURL := []\<rparr>) url
   \<and> \<not> matchesSceneURL (c\<lparr>SceneByURL := []\<rparr>) url"
  by (simp add: matchesPerformerURL_def matchesSceneURL_def matchesPerformerURL_loop_iff
      matchesSceneURL_loop_iff matchesURL_iff)

theorem matchesURL_substring_witness:
  "matchesSceneURL (example_rules [([''example.com''], None, None)]) ''https://example.com/scene/123''
   \<and> \<not> matchesSceneURL (example_rules [([''example.com''], None, None)]) ''https://Example.com/scene/123''
   \<and> \<not> matchesPerformerURL (example_rules []) ''https://example.com/scene/123''"
proof -
  have e: "''https://example.com/scene/123'' = ''https://'' @ ''example.com'' @ ''/scene/123''"
    by simp
  have s: "SceneByURL (example_rules [([''example.com''], None, None)]) = [scene_rule [''example.com''] (None, None)]"
    and u: "URL (scene_rule [''example.com''] (None, None)) = [''example.com'']"
    by (simp_all add: example_rules_def scene_rule_def)
  from e s u have m: "\<exists>r\<in>set (SceneByURL (example_rules [([''example.com''], None, None)])). \<exists>u\<in>set (URL r).
      \<exists>pre suf. ''https://example.com/scene/123'' = pre @ u @ suf"
    by (metis list.set_intros(1))
  from matchesURL_substring [where c = "example_rules [([''example.com''], None, None)]"
      and url = "''https://example.com/scene/123''"] m
  have a: "matchesSceneURL (example_rules [([''example.com''], None, None)]) ''https://example.com/scene/123''"
    by blast
  have b: "\<not> matchesSceneURL (example_rules [([''example.com''], None, None)]) ''https://Example.com/scene/123''"
    by (simp add: matchesSceneURL_def example_rules_def scene_rule_def matchesURL_def)
  have "PerformerByURL (example_rules []) = []"
    by (simp add: example_rules_def)
  with matchesURL_substring [where c = "example_rules []"
      and url = "''https://example.com/scene/123''", THEN conjunct2, THEN conjunct1]
  have "\<not> matchesPerformerURL (example_rules []) ''https://example.com/scene/123''"
    by simp
  with a b show ?thesis by simp
qed

subsection \<open>Capability projector\<close>

lemma foldl_Urls:
  "foldl (\<lambda>acc v. acc\<lparr>Urls := Urls acc @ URL v\<rparr>) init rs
     = init\<lparr>Urls := Urls init @ concat (map URL rs)\<rparr>"
  by (induction rs arbitrary: init) simp_all

lemma toScraper_performer_eq:
  "toScraper_performer c =
     \<lparr>Urls = concat (map URL (PerformerByURL c)),
      SupportedScrapes =
        (if PerformerByName c \<noteq> None then [ScrapeTypeName] else [])
        @ (if PerformerByFragment c \<noteq> None then [ScrapeTypeFragment] else [])
        @ (if PerformerByURL c \<noteq> [] then [ScrapeTypeURL] else [])\<rparr>"
  by (simp add: toScraper_performer_def foldl_Urls)

lemma toScraper_scene_eq:
  "toScraper_scene c =
     \<lparr>Urls = concat (map URL (SceneByURL c)),
      SupportedScrapes =
        (if SceneByFragment c \<noteq> None then [ScrapeTypeFragment] else [])
        @ (if SceneByURL c \<noteq> [] then [ScrapeTypeURL] else [])\<rparr>"
  by (simp add: toScraper_scene_def foldl_Urls)

lemma toScraper_Performer:
  "Performer (toScraper c) =
     (if SupportedScrapes (toScraper_performer c) = [] then None
      else Some (toScraper_performer c))"
  by (simp add: toScraper_def Let_def)

lemma toScraper_Scene:
  "Scene (toScraper c) =
     (if SupportedScrapes (toScraper_scene c) = [] then None else Some (toScraper_scene c))"
  by (simp add: toScraper_def Let_def)

lemma resolveFn_URL:
  "URL (scrapePerformerByURLConfig_resolveFn f r) = URL r"
  "URL (scrapeSceneByURLConfig_resolveFn g u) = URL u"
  by (simp_all add: scrapePerformerByURLConfig_resolveFn_def scrapeSceneByURLConfig_resolveFn_def)

lemma toScraper_initialiseConfigs:
  "Performer (toScraper (initialiseConfigs scripts c)) = Performer (toScraper c)"
  "Scene (toScraper (initialiseConfigs scripts c)) = Scene (toScraper c)"
  by (simp_all add: toScraper_Performer toScraper_Scene toScraper_performer_eq
      toScraper_scene_eq initialiseConfigs_def resolveFn_URL comp_def)

lemma toScraper_ID_update:
  "Performer (toScraper (c\<lparr>ID := i\<rparr>)) = Performer (toScraper c)"
  "Scene (toScraper (c\<lparr>ID := i\<rparr>)) = Scene (toScraper c)"
  by (simp_all add: toScraper_Performer toScraper_Scene toScraper_performer_eq
      toScraper_scene_eq)

text \<open>
  C7: the descriptor has the performer group exactly when the mode list that
  \<^verbatim>\<open>toScraper\<close> built for performers is non-empty, and then the group is that list with
  its URLs; likewise for scenes. A group that is present never has an empty mode list.
  In particular a definition with only performer-by-name populated has the performer
  group and no scene group.
\<close>

theorem toScraper_group_present_iff:
  "(Performer (toScraper c) \<noteq> None \<longleftrightarrow> SupportedScrapes (toScraper_performer c) \<noteq> [])
   \<and> (Scene (toScraper c) \<noteq> None \<longleftrightarrow> SupportedScrapes (toScraper_scene c) \<noteq> [])
   \<and> (\<forall>spec. Performer (toScraper c) = Some spec
          \<longrightarrow> spec = toScraper_performer c \<and> SupportedScrapes spec \<noteq> [])
   \<and> (\<forall>spec. Scene (toScraper c) = Some spec
          \<longrightarrow> spec = toScraper_scene c \<and> SupportedScrapes spec \<noteq> [])
   \<and> (PerformerByName c \<noteq> None \<and> PerformerByFragment c = None \<and> PerformerByURL c = []
        \<and> SceneByFragment c = None \<and> SceneByURL c = []
        \<longrightarrow> Scene (toScraper c) = None
            \<and> Performer (toScraper c) = Some \<lparr>Urls = [], SupportedScrapes = [ScrapeTypeName]\<rparr>)"
proof (intro conjI allI impI)
  show "Performer (toScraper c) \<noteq> None \<longleftrightarrow> SupportedScrapes (toScraper_performer c) \<noteq> []"
    by (simp add: toScraper_Performer)
  show "Scene (toScraper c) \<noteq> None \<longleftrightarrow> SupportedScrapes (toScraper_scene c) \<noteq> []"
    by (simp add: toScraper_Scene)
next
  fix spec
  assume "Performer (toScraper c) = Some spec"
  then show "spec = toScraper_performer c" "SupportedScrapes spec \<noteq> []"
    by (auto simp: toScraper_Performer split: if_splits)
next
  fix spec
  assume "Scene (toScraper c) = Some spec"
  then show "spec = toScraper_scene c" "SupportedScrapes spec \<noteq> []"
    by (auto simp: toScraper_Scene split: if_splits)
next
  assume a: "PerformerByName c \<noteq> None \<and> PerformerByFragment c = None \<and> PerformerByURL c = []
        \<and> SceneByFragment c = None \<and> SceneByURL c = []"
  then show "Scene (toScraper c) = None"
    by (simp add: toScraper_Scene toScraper_scene_eq)
  from a show "Performer (toScraper c) = Some \<lparr>Urls = [], SupportedScrapes = [ScrapeTypeName]\<rparr>"
    by (simp add: toScraper_Performer toScraper_performer_eq)
qed

theorem toScraper_group_present_iff_witness:
  "Scene (toScraper example_decoded) = None
   \<and> Performer (toScraper example_decoded)
       = Some \<lparr>Urls = [], SupportedScrapes = [ScrapeTypeName]\<rparr>
   \<and> Scene (toScraper (example_rules [([''example.com''], None, None)]))
       = Some \<lparr>Urls = [''example.com''], SupportedScrapes = [ScrapeTypeURL]\<rparr>
   \<and> SupportedScrapes (toScraper_scene (example_rules [([''example.com''], None, None)])) \<noteq> []"
proof -
  have s: "Scene (toScraper (example_rules [([''example.com''], None, None)]))
       = Some \<lparr>Urls = [''example.com''], SupportedScrapes = [ScrapeTypeURL]\<rparr>"
    by (simp add: toScraper_Scene toScraper_scene_eq example_rules_def scene_rule_def)
  from toScraper_group_present_iff [of example_decoded]
  have d: "Scene (toScraper example_decoded) = None
   \<and> Performer (toScraper example_decoded)
       = Some \<lparr>Urls = [], SupportedScrapes = [ScrapeTypeName]\<rparr>"
    by (simp add: example_decoded_def)
  from toScraper_group_present_iff [of "example_rules [([''example.com''], None, None)]"] s
  have "SupportedScrapes (toScraper_scene (example_rules [([''example.com''], None, None)])) \<noteq> []"
    by simp
  with s d show ?thesis by simp
qed

text \<open>
  C8: the mode lists of the descriptor reflect the populated operation blocks. A group
  is absent exactly when none of its blocks is populated; when it is present its modes
  are, in this order, by-name, by-fragment and by-url for performers (by-fragment and
  by-url for scenes), each listed exactly when its block is populated (the URL mode
  when the rule list is non-empty), and its URLs are the configured strings of all the
  rules, in list order. The groups of a loaded definition are those of the definition
  the decoder produced: the resolution pass and the identifier do not change them.
\<close>

theorem toScraper_modes_reflect_blocks:
  "(case Performer (toScraper c) of
      None \<Rightarrow> PerformerByName c = None \<and> PerformerByFragment c = None \<and> PerformerByURL c = []
    | Some spec \<Rightarrow>
        SupportedScrapes spec =
          (if PerformerByName c \<noteq> None then [ScrapeTypeName] else [])
          @ (if PerformerByFragment c \<noteq> None then [ScrapeTypeFragment] else [])
          @ (if PerformerByURL c \<noteq> [] then [ScrapeTypeURL] else [])
        \<and> Urls spec = concat (map URL (PerformerByURL c)))
   \<and> (case Scene (toScraper c) of
      None \<Rightarrow> SceneByFragment c = None \<and> SceneByURL c = []
    | Some spec \<Rightarrow>
        SupportedScrapes spec =
          (if SceneByFragment c \<noteq> None then [ScrapeTypeFragment] else [])
          @ (if SceneByURL c \<noteq> [] then [ScrapeTypeURL] else [])
        \<and> Urls spec = concat (map URL (SceneByURL c)))
   \<and> (loadScraperFromYAML os_Open Decode scripts path = Inr c' \<longrightarrow>
        (\<exists>opened d. os_Open path = Inr opened \<and> Decode opened = Inr (Some d)
           \<and> Performer (toScraper c') = Performer (toScraper d)
           \<and> Scene (toScraper c') = Scene (toScraper d)))"
proof (intro conjI impI)
  show "case Performer (toScraper c) of
      None \<Rightarrow> PerformerByName c = None \<and> PerformerByFragment c = None \<and> PerformerByURL c = []
    | Some spec \<Rightarrow>
        SupportedScrapes spec =
          (if PerformerByName c \<noteq> None then [ScrapeTypeName] else [])
          @ (if PerformerByFragment c \<noteq> None then [ScrapeTypeFragment] else [])
          @ (if PerformerByURL c \<noteq> [] then [ScrapeTypeURL] else [])
        \<and> Urls spec = concat (map URL (PerformerByURL c))"
    by (simp add: toScraper_Performer toScraper_performer_eq)
  show "case Scene (toScraper c) of
      None \<Rightarrow> SceneByFragment c = None \<and> SceneByURL c = []
    | Some spec \<Rightarrow>
        SupportedScrapes spec =
          (if SceneByFragment c \<noteq> None then [ScrapeTypeFragment] else [])
          @ (if SceneByURL c \<noteq> [] then [ScrapeTypeURL] else [])
        \<and> Urls spec = concat (map URL (SceneByURL c))"
    by (simp add: toScraper_Scene toScraper_scene_eq)
next
  assume "loadScraperFromYAML os_Open Decode scripts path = Inr c'"
  then obtain opened d stem where o: "os_Open path = Inr opened"
    and d: "Decode opened = Inr (Some d)"
    and c': "c' = initialiseConfigs scripts (d\<lparr>ID := stem\<rparr>)"
    by (auto simp: loadScraperFromYAML_Inr_iff)
  from c' have "Performer (toScraper c') = Performer (toScraper d)"
    and "Scene (toScraper c') = Scene (toScraper d)"
    by (simp_all add: toScraper_initialiseConfigs toScraper_ID_update)
  with o d show "\<exists>opened d. os_Open path = Inr opened \<and> Decode opened = Inr (Some d)
           \<and> Performer (toScraper c') = Performer (toScraper d)
           \<and> Scene (toScraper c') = Scene (toScraper d)"
    by blast
qed

theorem toScraper_modes_reflect_blocks_witness:
  "loadScraperFromYAML (\<lambda>p. Inr p) (\<lambda>f. Inr (Some example_decoded)) example_scripts
       ''mysite.yml''
     = Inr (initialiseConfigs example_scripts (example_decoded\<lparr>ID := ''mysite''\<rparr>))
   \<and> Performer (toScraper (initialiseConfigs example_scripts (example_decoded\<lparr>ID := ''mysite''\<rparr>)))
       = Some \<lparr>Urls = [], SupportedScrapes = [ScrapeTypeName]\<rparr>
   \<and> Scene (toScraper (initialiseConfigs example_scripts (example_decoded\<lparr>ID := ''mysite''\<rparr>)))
       = None
   \<and> Performer (toScraper (example_rules [([''a.com'', ''b.com''], None, None),
                                          ([''c.com''], None, None)]))
       = Some \<lparr>Urls = [''a.com'', ''b.com'', ''c.com''], SupportedScrapes = [ScrapeTypeURL]\<rparr>"
proof -
  let ?c = "initialiseConfigs example_scripts (example_decoded\<lparr>ID := ''mysite''\<rparr>)"
  have u: "Performer (toScraper (example_rules [([''a.com'', ''b.com''], None, None),
                                          ([''c.com''], None, None)]))
       = Some \<lparr>Urls = [''a.com'', ''b.com'', ''c.com''], SupportedScrapes = [ScrapeTypeURL]\<rparr>"
    by (simp add: toScraper_Performer toScraper_performer_eq example_rules_def performer_rule_def)
  have l: "loadScraperFromYAML (\<lambda>p. Inr p) (\<lambda>f. Inr (Some example_decoded)) example_scripts
       ''mysite.yml'' = Inr ?c"
    by (simp add: loadScraperFromYAML_def Base_def sliceTo_def Let_def)
  have p: "Performer (toScraper example_decoded)
       = Some \<lparr>Urls = [], SupportedScrapes = [ScrapeTypeName]\<rparr>"
    and s: "Scene (toScraper example_decoded) = None"
    by (simp_all add: toScraper_Performer toScraper_Scene toScraper_performer_eq
        toScraper_scene_eq example_decoded_def)
  from toScraper_modes_reflect_blocks [where os_Open = "\<lambda>p. Inr p"
      and Decode = "\<lambda>f. Inr (Some example_decoded)" and scripts = example_scripts
      and path = "''mysite.yml''" and c' = ?c, THEN conjunct2, THEN conjunct2] l
  have "Performer (toScraper ?c) = Performer (toScraper example_decoded)
      \<and> Scene (toScraper ?c) = Scene (toScraper example_decoded)"
    by simp
  with l p s u show ?thesis by simp
qed

text \<open>
  C10: \<open>supportsPerformers\<close> holds exactly when the descriptor has the performer group,
  and \<open>supportsScenes\<close> exactly when it has the scene group.
\<close>

theorem supports_iff_group_present:
  "(supportsPerformers c \<longleftrightarrow> Performer (toScraper c) \<noteq> None)
   \<and> (supportsScenes c \<longleftrightarrow> Scene (toScraper c) \<noteq> None)"
  by (simp add: supportsPerformers_def supportsScenes_def toScraper_Performer toScraper_Scene
      toScraper_performer_eq toScraper_scene_eq)

theorem supports_iff_group_present_witness:
  "supportsPerformers example_decoded \<and> Performer (toScraper example_decoded) \<noteq> None
   \<and> \<not> supportsScenes example_decoded \<and> Scene (toScraper example_decoded) = None"
proof -
  have "supportsPerformers example_decoded" "\<not> supportsScenes example_decoded"
    by (simp_all add: supportsPerformers_def supportsScenes_def example_decoded_def)
  with supports_iff_group_present [of example_decoded] show ?thesis by simp
qed

subsection \<open>Dispatch by name and by fragment\<close>

text \<open>
  C6: each of \<open>ScrapePerformerNames\<close>, \<open>ScrapePerformer\<close> and \<open>ScrapeScene\<close> returns
  no result and no error when its operation config is absent or its handler is
  unbound; when the config is present and the handler bound, it returns exactly the
  pair that the handler returns on the config's type config and the input.
\<close>

theorem Scrape_unbound_or_verbatim:
  "(PerformerByName c = None \<longrightarrow> ScrapePerformerNames c name = (None, None))
   \<and> (\<forall>pc. PerformerByName c = Some pc \<and> performerByNameConfig.performScrape pc = None
          \<longrightarrow> ScrapePerformerNames c name = (None, None))
   \<and> (\<forall>pc f. PerformerByName c = Some pc \<and> performerByNameConfig.performScrape pc = Some f
          \<longrightarrow> ScrapePerformerNames c name = f (scraperTypeConfig.truncate pc) name)
   \<and> (PerformerByFragment c = None \<longrightarrow> ScrapePerformer c scrapedPerformer = (None, None))
   \<and> (\<forall>pc. PerformerByFragment c = Some pc \<and> performerByFragmentConfig.performScrape pc = None
          \<longrightarrow> ScrapePerformer c scrapedPerformer = (None, None))
   \<and> (\<forall>pc f. PerformerByFragment c = Some pc \<and> performerByFragmentConfig.performScrape pc = Some f
          \<longrightarrow> ScrapePerformer c scrapedPerformer = f (scraperTypeConfig.truncate pc) scrapedPerformer)
   \<and> (SceneByFragment c = None \<longrightarrow> ScrapeScene c scene = (None, None))
   \<and> (\<forall>pc. SceneByFragment c = Some pc \<and> sceneByFragmentConfig.performScrape pc = None
          \<longrightarrow> ScrapeScene c scene = (None, None))
   \<and> (\<forall>pc f. SceneByFragment c = Some pc \<and> sceneByFragmentConfig.performScrape pc = Some f
          \<longrightarrow> ScrapeScene c scene = f (scraperTypeConfig.truncate pc) scene)"
  by (simp add: ScrapePerformerNames_def ScrapePerformer_def ScrapeScene_def)

theorem Scrape_unbound_or_verbatim_witness:
  "ScrapePerformer example_decoded 5 = (None, None)
   \<and> ScrapeScene example_decoded 5 = (None, None)
   \<and> ScrapePerformerNames example_decoded ''abc'' = (None, None)
   \<and> ScrapePerformerNames (initialiseConfigs example_scripts example_decoded) ''abc''
       = (Some [3], None)
   \<and> ScrapePerformerNames
        (example_decoded\<lparr>PerformerByName :=
           Some \<lparr>Action = ''script'', Script = [],
                 performerByNameConfig.performScrape = Some (\<lambda>c name. (Some [1], Some ''late''))\<rparr>\<rparr>)
        ''abc'' = (Some [1], Some ''late'')"
proof -
  have a: "ScrapePerformer example_decoded 5 = (None, None)
     \<and> ScrapeScene example_decoded 5 = (None, None)
     \<and> ScrapePerformerNames example_decoded ''abc'' = (None, None)"
    using Scrape_unbound_or_verbatim [of example_decoded "''abc''" 5 5]
    by (simp add: example_decoded_def)
  have b: "ScrapePerformerNames (initialiseConfigs example_scripts example_decoded) ''abc''
       = (Some [3], None)"
    using Scrape_unbound_or_verbatim [of "initialiseConfigs example_scripts example_decoded" "''abc''"]
    by (simp add: example_decoded_def initialiseConfigs_def performerByNameConfig_resolveFn_def
        scraperActionScript_def example_scripts_def)
  have c: "ScrapePerformerNames
        (example_decoded\<lparr>PerformerByName :=
           Some \<lparr>Action = ''script'', Script = [],
                 performerByNameConfig.performScrape = Some (\<lambda>c name. (Some [1], Some ''late''))\<rparr>\<rparr>)
        ''abc'' = (Some [1], Some ''late'')"
    using Scrape_unbound_or_verbatim [of "example_decoded\<lparr>PerformerByName :=
           Some \<lparr>Action = ''script'', Script = [],
                 performerByNameConfig.performScrape = Some (\<lambda>c name. (Some [1], Some ''late''))\<rparr>\<rparr>"
        "''abc''"]
    by simp
  from a b c show ?thesis by simp
qed

subsection \<open>Dispatch by URL\<close>

lemma ScrapePerformerURL_loop_skip:
  assumes "\<forall>q\<in>set pre. \<forall>g.
      matchesURL q url \<and> scrapePerformerByURLConfig.performScrape q = Some g
        \<longrightarrow> g (scraperTypeConfig.truncate q) url = (None, None)"
  shows "fst (ScrapePerformerURL_loop i (pre @ rest) url)
           = fst (ScrapePerformerURL_loop (i + length pre) rest url)"
  using assms
proof (induction pre arbitrary: i)
  case Nil
  show ?case by simp
next
  case (Cons q pre)
  from Cons.prems have tl: "\<forall>q\<in>set pre. \<forall>g.
      matchesURL q url \<and> scrapePerformerByURLConfig.performScrape q = Some g
        \<longrightarrow> g (scraperTypeConfig.truncate q) url = (None, None)"
    by simp
  have step: "fst (ScrapePerformerURL_loop i (q # pre @ rest) url)
                = fst (ScrapePerformerURL_loop (Suc i) (pre @ rest) url)"
  proof (cases "matchesURL q url \<and> scrapePerformerByURLConfig.performScrape q \<noteq> None")
    case True
    then obtain g where g: "scrapePerformerByURLConfig.performScrape q = Some g" by auto
    with True Cons.prems have "g (scraperTypeConfig.truncate q) url = (None, None)" by simp
    with True g show ?thesis by (simp split: prod.splits)
  next
    case False
    then show ?thesis by auto
  qed
  from Cons.IH [OF tl, of "Suc i"] step show ?case by simp
qed

lemma ScrapePerformerURL_first_result:
  assumes "PerformerByURL c = pre @ r # post"
    and "matchesURL r url"
    and "scrapePerformerByURLConfig.performScrape r = Some f"
    and "f (scraperTypeConfig.truncate r) url = (Some v, None)"
    and "\<forall>q\<in>set pre. \<forall>g.
      matchesURL q url \<and> scrapePerformerByURLConfig.performScrape q = Some g
        \<longrightarrow> g (scraperTypeConfig.truncate q) url = (None, None)"
  shows "ScrapePerformerURL c url = (Some v, None)"
proof -
  from assms(2,3,4)
  have "fst (ScrapePerformerURL_loop (0 + length pre) (r # post) url) = (Some v, None)"
    by simp
  with ScrapePerformerURL_loop_skip [OF assms(5), of 0 "r # post"] assms(1)
  show ?thesis by (simp add: ScrapePerformerURL_def)
qed

lemma ScrapePerformerURL_all_absent:
  assumes "\<forall>q\<in>set (PerformerByURL c). \<forall>g.
      matchesURL q url \<and> scrapePerformerByURLConfig.performScrape q = Some g
        \<longrightarrow> g (scraperTypeConfig.truncate q) url = (None, None)"
  shows "ScrapePerformerURL c url = (None, None)"
  using ScrapePerformerURL_loop_skip [OF assms, of 0 "[]"]
  by (simp add: ScrapePerformerURL_def)

lemma ScrapePerformerURL_loop_calls_range:
  "j \<in> set (snd (ScrapePerformerURL_loop k rs url)) \<Longrightarrow> k \<le> j \<and> j < k + length rs"
proof (induction rs arbitrary: k)
  case Nil
  then show ?case by simp
next
  case (Cons s rest)
  from Cons.prems Cons.IH [of "Suc k"] show ?case
    by (fastforce split: if_splits prod.splits)
qed

lemma ScrapePerformerURL_loop_calls_sound:
  "j \<in> set (snd (ScrapePerformerURL_loop k rs url)) \<Longrightarrow>
     matchesURL (rs ! (j - k)) url
     \<and> scrapePerformerByURLConfig.performScrape (rs ! (j - k)) \<noteq> None"
proof (induction rs arbitrary: k)
  case Nil
  then show ?case by simp
next
  case (Cons s rest)
  have later: "matchesURL ((s # rest) ! (j - k)) url
     \<and> scrapePerformerByURLConfig.performScrape ((s # rest) ! (j - k)) \<noteq> None"
    if mem: "j \<in> set (snd (ScrapePerformerURL_loop (Suc k) rest url))"
  proof -
    from mem have "Suc k \<le> j" using ScrapePerformerURL_loop_calls_range by blast
    then have "(s # rest) ! (j - k) = rest ! (j - Suc k)"
      by (simp add: Suc_diff_le)
    with Cons.IH [OF mem] show ?thesis by simp
  qed
  from Cons.prems later show ?case
    by (auto split: if_splits prod.splits)
qed

lemma ScrapePerformerURL_loop_error:
  assumes "j \<in> set (snd (ScrapePerformerURL_loop k rs url))"
    and "scrapePerformerByURLConfig.performScrape (rs ! (j - k)) = Some f"
    and "snd (f (scraperTypeConfig.truncate (rs ! (j - k))) url) = Some e"
  shows "fst (ScrapePerformerURL_loop k rs url) = (None, Some e)
         \<and> (\<forall>m\<in>set (snd (ScrapePerformerURL_loop k rs url)). m \<le> j)"
  using assms
proof (induction rs arbitrary: k)
  case Nil
  then show ?case by simp
next
  case (Cons s rest)
  have later: "fst (ScrapePerformerURL_loop (Suc k) rest url) = (None, Some e)
         \<and> (\<forall>m\<in>set (snd (ScrapePerformerURL_loop (Suc k) rest url)). m \<le> j)"
    if mem: "j \<in> set (snd (ScrapePerformerURL_loop (Suc k) rest url))"
  proof -
    from mem have "Suc k \<le> j" using ScrapePerformerURL_loop_calls_range by blast
    then have idx: "(s # rest) ! (j - k) = rest ! (j - Suc k)"
      by (simp add: Suc_diff_le)
    from Cons.IH [OF mem] Cons.prems(2,3) idx show ?thesis by simp
  qed
  show ?case
  proof (cases "matchesURL s url \<and> scrapePerformerByURLConfig.performScrape s \<noteq> None")
    case False
    then have "ScrapePerformerURL_loop k (s # rest) url = ScrapePerformerURL_loop (Suc k) rest url"
      by auto
    with Cons.prems(1) later show ?thesis by simp
  next
    case True
    then obtain g where g: "scrapePerformerByURLConfig.performScrape s = Some g" by auto
    obtain ret err where out: "g (scraperTypeConfig.truncate s) url = (ret, err)"
      by (cases "g (scraperTypeConfig.truncate s) url")
    show ?thesis
    proof (cases "err \<noteq> None \<or> ret \<noteq> None")
      case stop: True
      with True g out have calls: "snd (ScrapePerformerURL_loop k (s # rest) url) = [k]"
        by auto
      with Cons.prems(1) have "j = k" by simp
      with Cons.prems(2,3) g out have "err = Some e" by simp
      with True g out calls \<open>j = k\<close> show ?thesis by simp
    next
      case go: False
      with True g out have calls: "snd (ScrapePerformerURL_loop k (s # rest) url)
          = k # snd (ScrapePerformerURL_loop (Suc k) rest url)"
        and res: "fst (ScrapePerformerURL_loop k (s # rest) url)
          = fst (ScrapePerformerURL_loop (Suc k) rest url)"
        by (auto split: prod.splits)
      have "j \<noteq> k"
      proof
        assume "j = k"
        with Cons.prems(2,3) g out go show False by simp
      qed
      with Cons.prems(1) calls
      have mem: "j \<in> set (snd (ScrapePerformerURL_loop (Suc k) rest url))"
        by simp
      then have "Suc k \<le> j" using ScrapePerformerURL_loop_calls_range by blast
      with later [OF mem] calls res show ?thesis by simp
    qed
  qed
qed

lemma ScrapePerformerURL_error:
  assumes "i \<in> set (ScrapePerformerURL_calls c url)"
    and "scrapePerformerByURLConfig.performScrape (PerformerByURL c ! i) = Some f"
    and "snd (f (scraperTypeConfig.truncate (PerformerByURL c ! i)) url) = Some e"
  shows "ScrapePerformerURL c url = (None, Some e)
         \<and> (\<forall>j\<in>set (ScrapePerformerURL_calls c url). j \<le> i)"
  using ScrapePerformerURL_loop_error [of i 0 "PerformerByURL c" url f e] assms
  by (simp add: ScrapePerformerURL_def ScrapePerformerURL_calls_def)

lemma ScrapeSceneURL_loop_skip:
  assumes "\<forall>q\<in>set pre. \<forall>g.
      matchesURL q url \<and> scrapeSceneByURLConfig.performScrape q = Some g
        \<longrightarrow> g (scraperTypeConfig.truncate q) url = (None, None)"
  shows "fst (ScrapeSceneURL_loop i (pre @ rest) url)
           = fst (ScrapeSceneURL_loop (i + length pre) rest url)"
  using assms
proof (induction pre arbitrary: i)
  case Nil
  show ?case by simp
next
  case (Cons q pre)
  from Cons.prems have tl: "\<forall>q\<in>set pre. \<forall>g.
      matchesURL q url \<and> scrapeSceneByURLConfig.performScrape q = Some g
        \<longrightarrow> g (scraperTypeConfig.truncate q) url = (None, None)"
    by simp
  have step: "fst (ScrapeSceneURL_loop i (q # pre @ rest) url)
                = fst (ScrapeSceneURL_loop (Suc i) (pre @ rest) url)"
  proof (cases "matchesURL q url \<and> scrapeSceneByURLConfig.performScrape q \<noteq> None")
    case True
    then obtain g where g: "scrapeSceneByURLConfig.performScrape q = Some g" by auto
    with True Cons.prems have "g (scraperTypeConfig.truncate q) url = (None, None)" by simp
    with True g show ?thesis by (simp split: prod.splits)
  next
    case False
    then show ?thesis by auto
  qed
  from Cons.IH [OF tl, of "Suc i"] step show ?case by simp
qed

lemma ScrapeSceneURL_first_result:
  assumes "SceneByURL c = pre @ r # post"
    and "matchesURL r url"
    and "scrapeSceneByURLConfig.performScrape r = Some f"
    and "f (scraperTypeConfig.truncate r) url = (Some v, None)"
    and "\<forall>q\<in>set pre. \<forall>g.
      matchesURL q url \<and> scrapeSceneByURLConfig.performScrape q = Some g
        \<longrightarrow> g (scraperTypeConfig.truncate q) url = (None, None)"
  shows "ScrapeSceneURL c url = (Some v, None)"
proof -
  from assms(2,3,4)
  have "fst (ScrapeSceneURL_loop (0 + length pre) (r # post) url) = (Some v, None)"
    by simp
  with ScrapeSceneURL_loop_skip [OF assms(5), of 0 "r # post"] assms(1)
  show ?thesis by (simp add: ScrapeSceneURL_def)
qed

lemma ScrapeSceneURL_all_absent:
  assumes "\<forall>q\<in>set (SceneByURL c). \<forall>g.
      matchesURL q url \<and> scrapeSceneByURLConfig.performScrape q = Some g
        \<longrightarrow> g (scraperTypeConfig.truncate q) url = (None, None)"
  shows "ScrapeSceneURL c url = (None, None)"
  using ScrapeSceneURL_loop_skip [OF assms, of 0 "[]"]
  by (simp add: ScrapeSceneURL_def)

lemma ScrapeSceneURL_loop_calls_range:
  "j \<in> set (snd (ScrapeSceneURL_loop k rs url)) \<Longrightarrow> k \<le> j \<and> j < k + length rs"
proof (induction rs arbitrary: k)
  case Nil
  then show ?case by simp
next
  case (Cons s rest)
  from Cons.prems Cons.IH [of "Suc k"] show ?case
    by (fastforce split: if_splits prod.splits)
qed

lemma ScrapeSceneURL_loop_calls_sound:
  "j \<in> set (snd (ScrapeSceneURL_loop k rs url)) \<Longrightarrow>
     matchesURL (rs ! (j - k)) url
     \<and> scrapeSceneByURLConfig.performScrape (rs ! (j - k)) \<noteq> None"
proof (induction rs arbitrary: k)
  case Nil
  then show ?case by simp
next
  case (Cons s rest)
  have later: "matchesURL ((s # rest) ! (j - k)) url
     \<and> scrapeSceneByURLConfig.performScrape ((s # rest) ! (j - k)) \<noteq> None"
    if mem: "j \<in> set (snd (ScrapeSceneURL_loop (Suc k) rest url))"
  proof -
    from mem have "Suc k \<le> j" using ScrapeSceneURL_loop_calls_range by blast
    then have "(s # rest) ! (j - k) = rest ! (j - Suc k)"
      by (simp add: Suc_diff_le)
    with Cons.IH [OF mem] show ?thesis by simp
  qed
  from Cons.prems later show ?case
    by (auto split: if_splits prod.splits)
qed

lemma ScrapeSceneURL_loop_error:
  assumes "j \<in> set (snd (ScrapeSceneURL_loop k rs url))"
    and "scrapeSceneByURLConfig.performScrape (rs ! (j - k)) = Some f"
    and "snd (f (scraperTypeConfig.truncate (rs ! (j - k))) url) = Some e"
  shows "fst (ScrapeSceneURL_loop k rs url) = (None, Some e)
         \<and> (\<forall>m\<in>set (snd (ScrapeSceneURL_loop k rs url)). m \<le> j)"
  using assms
proof (induction rs arbitrary: k)
  case Nil
  then show ?case by simp
next
  case (Cons s rest)
  have later: "fst (ScrapeSceneURL_loop (Suc k) rest url) = (None, Some e)
         \<and> (\<forall>m\<in>set (snd (ScrapeSceneURL_loop (Suc k) rest url)). m \<le> j)"
    if mem: "j \<in> set (snd (ScrapeSceneURL_loop (Suc k) rest url))"
  proof -
    from mem have "Suc k \<le> j" using ScrapeSceneURL_loop_calls_range by blast
    then have idx: "(s # rest) ! (j - k) = rest ! (j - Suc k)"
      by (simp add: Suc_diff_le)
    from Cons.IH [OF mem] Cons.prems(2,3) idx show ?thesis by simp
  qed
  show ?case
  proof (cases "matchesURL s url \<and> scrapeSceneByURLConfig.performScrape s \<noteq> None")
    case False
    then have "ScrapeSceneURL_loop k (s # rest) url = ScrapeSceneURL_loop (Suc k) rest url"
      by auto
    with Cons.prems(1) later show ?thesis by simp
  next
    case True
    then obtain g where g: "scrapeSceneByURLConfig.performScrape s = Some g" by auto
    obtain ret err where out: "g (scraperTypeConfig.truncate s) url = (ret, err)"
      by (cases "g (scraperTypeConfig.truncate s) url")
    show ?thesis
    proof (cases "err \<noteq> None \<or> ret \<noteq> None")
      case stop: True
      with True g out have calls: "snd (ScrapeSceneURL_loop k (s # rest) url) = [k]"
        by auto
      with Cons.prems(1) have "j = k" by simp
      with Cons.prems(2,3) g out have "err = Some e" by simp
      with True g out calls \<open>j = k\<close> show ?thesis by simp
    next
      case go: False
      with True g out have calls: "snd (ScrapeSceneURL_loop k (s # rest) url)
          = k # snd (ScrapeSceneURL_loop (Suc k) rest url)"
        and res: "fst (ScrapeSceneURL_loop k (s # rest) url)
          = fst (ScrapeSceneURL_loop (Suc k) rest url)"
        by (auto split: prod.splits)
      have "j \<noteq> k"
      proof
        assume "j = k"
        with Cons.prems(2,3) g out go show False by simp
      qed
      with Cons.prems(1) calls
      have mem: "j \<in> set (snd (ScrapeSceneURL_loop (Suc k) rest url))"
        by simp
      then have "Suc k \<le> j" using ScrapeSceneURL_loop_calls_range by blast
      with later [OF mem] calls res show ?thesis by simp
    qed
  qed
qed

lemma ScrapeSceneURL_error:
  assumes "i \<in> set (ScrapeSceneURL_calls c url)"
    and "scrapeSceneByURLConfig.performScrape (SceneByURL c ! i) = Some f"
    and "snd (f (scraperTypeConfig.truncate (SceneByURL c ! i)) url) = Some e"
  shows "ScrapeSceneURL c url = (None, Some e)
         \<and> (\<forall>j\<in>set (ScrapeSceneURL_calls c url). j \<le> i)"
  using ScrapeSceneURL_loop_error [of i 0 "SceneByURL c" url f e] assms
  by (simp add: ScrapeSceneURL_def ScrapeSceneURL_calls_def)

text \<open>
  C3: dispatch by URL should return the result of the first rule, in declared order,
  that matches the URL, has a bound handler and yields a result. It does not when an
  earlier matching rule's handler returns an error: below, the second rule matches,
  is bound and yields the result \<open>7\<close>, the first rule matches and yields no result
  but an error, and the dispatch returns that error and not \<open>7\<close>, for performers and
  for scenes. Likewise a single rule whose handler returns the result \<open>7\<close> together
  with an error: the dispatch drops the result and returns the error.
\<close>

theorem ScrapeURL_first_result_counterexample:
  "matchesURL (performer_rule [''example.com''] (Some 7, None)) ''https://example.com/scene/123''
   \<and> map_option (\<lambda>h. h \<lparr>Action = ''script'', Script = []\<rparr> ''https://example.com/scene/123'')
         (scrapePerformerByURLConfig.performScrape (performer_rule [''example.com''] (Some 7, None)))
       = Some (Some 7, None)
   \<and> ScrapePerformerURL
        (example_rules [([''example.com/scene''], None, Some ''timeout''),
                        ([''example.com''], Some 7, None)])
        ''https://example.com/scene/123'' = (None, Some ''timeout'')
   \<and> ScrapeSceneURL
        (example_rules [([''example.com/scene''], None, Some ''timeout''),
                        ([''example.com''], Some 7, None)])
        ''https://example.com/scene/123'' = (None, Some ''timeout'')
   \<and> ScrapePerformerURL
        (example_rules [([''example.com''], Some 7, Some ''partial'')])
        ''https://example.com/scene/123'' = (None, Some ''partial'')"
  by (simp add: ScrapePerformerURL_def ScrapeSceneURL_def example_rules_def performer_rule_def
      scene_rule_def matchesURL_def scraperTypeConfig.truncate_def)

text \<open>
  C3 as amended: when a rule matches the URL, has a bound handler and yields a result
  and no error, and every earlier rule that matches and has a bound handler yields
  neither a result nor an error, the dispatch returns that rule's result and no
  error, whatever rules follow it. When every rule that matches and has a bound
  handler yields neither a result nor an error (in particular when no rule matches),
  the dispatch returns no result and no error. Both hold of \<open>ScrapePerformerURL\<close> and
  of \<open>ScrapeSceneURL\<close>.
\<close>

theorem ScrapeURL_first_result:
  "(PerformerByURL c = pre @ r # post \<and> matchesURL r url
      \<and> scrapePerformerByURLConfig.performScrape r = Some f
      \<and> f (scraperTypeConfig.truncate r) url = (Some v, None)
      \<and> (\<forall>q\<in>set pre. \<forall>g.
            matchesURL q url \<and> scrapePerformerByURLConfig.performScrape q = Some g
              \<longrightarrow> g (scraperTypeConfig.truncate q) url = (None, None))
      \<longrightarrow> ScrapePerformerURL c url = (Some v, None))
   \<and> ((\<forall>q\<in>set (PerformerByURL c). \<forall>g.
          matchesURL q url \<and> scrapePerformerByURLConfig.performScrape q = Some g
            \<longrightarrow> g (scraperTypeConfig.truncate q) url = (None, None))
      \<longrightarrow> ScrapePerformerURL c url = (None, None))
   \<and> (SceneByURL c = pre' @ r' # post' \<and> matchesURL r' url
      \<and> scrapeSceneByURLConfig.performScrape r' = Some f'
      \<and> f' (scraperTypeConfig.truncate r') url = (Some v', None)
      \<and> (\<forall>q\<in>set pre'. \<forall>g.
            matchesURL q url \<and> scrapeSceneByURLConfig.performScrape q = Some g
              \<longrightarrow> g (scraperTypeConfig.truncate q) url = (None, None))
      \<longrightarrow> ScrapeSceneURL c url = (Some v', None))
   \<and> ((\<forall>q\<in>set (SceneByURL c). \<forall>g.
          matchesURL q url \<and> scrapeSceneByURLConfig.performScrape q = Some g
            \<longrightarrow> g (scraperTypeConfig.truncate q) url = (None, None))
      \<longrightarrow> ScrapeSceneURL c url = (None, None))"
proof (intro conjI impI)
  assume "PerformerByURL c = pre @ r # post \<and> matchesURL r url
      \<and> scrapePerformerByURLConfig.performScrape r = Some f
      \<and> f (scraperTypeConfig.truncate r) url = (Some v, None)
      \<and> (\<forall>q\<in>set pre. \<forall>g.
            matchesURL q url \<and> scrapePerformerByURLConfig.performScrape q = Some g
              \<longrightarrow> g (scraperTypeConfig.truncate q) url = (None, None))"
  then show "ScrapePerformerURL c url = (Some v, None)"
    using ScrapePerformerURL_first_result [of c pre r post url f v] by blast
next
  assume "\<forall>q\<in>set (PerformerByURL c). \<forall>g.
          matchesURL q url \<and> scrapePerformerByURLConfig.performScrape q = Some g
            \<longrightarrow> g (scraperTypeConfig.truncate q) url = (None, None)"
  then show "ScrapePerformerURL c url = (None, None)"
    by (rule ScrapePerformerURL_all_absent)
next
  assume "SceneByURL c = pre' @ r' # post' \<and> matchesURL r' url
      \<and> scrapeSceneByURLConfig.performScrape r' = Some f'
      \<and> f' (scraperTypeConfig.truncate r') url = (Some v', None)
      \<and> (\<forall>q\<in>set pre'. \<forall>g.
            matchesURL q url \<and> scrapeSceneByURLConfig.performScrape q = Some g
              \<longrightarrow> g (scraperTypeConfig.truncate q) url = (None, None))"
  then show "ScrapeSceneURL c url = (Some v', None)"
    using ScrapeSceneURL_first_result [of c pre' r' post' url f' v'] by blast
next
  assume "\<forall>q\<in>set (SceneByURL c). \<forall>g.
          matchesURL q url \<and> scrapeSceneByURLConfig.performScrape q = Some g
            \<longrightarrow> g (scraperTypeConfig.truncate q) url = (None, None)"
  then show "ScrapeSceneURL c url = (None, None)"
    by (rule ScrapeSceneURL_all_absent)
qed

theorem ScrapeURL_first_result_witness:
  "ScrapePerformerURL
     (example_rules [([''example.org''], Some 1, None), ([''example.com/scene''], None, None),
                     ([''example.com''], Some 7, None), ([''example.com''], Some 9, None)])
     ''https://example.com/scene/123'' = (Some 7, None)
   \<and> ScrapeSceneURL
     (example_rules [([''example.org''], Some 1, None), ([''example.com/scene''], None, None),
                     ([''example.com''], Some 7, None), ([''example.com''], Some 9, None)])
     ''https://example.com/scene/123'' = (Some 7, None)
   \<and> ScrapePerformerURL
     (example_rules [([''example.org''], Some 1, None), ([''example.com/scene''], None, None)])
     ''https://example.com/scene/123'' = (None, None)
   \<and> ScrapeSceneURL
     (example_rules [([''example.org''], Some 1, None), ([''example.com/scene''], None, None)])
     ''https://example.com/scene/123'' = (None, None)"
proof -
  let ?url = "''https://example.com/scene/123''"
  let ?c = "example_rules [([''example.org''], Some 1, None), ([''example.com/scene''], None, None),
                     ([''example.com''], Some 7, None), ([''example.com''], Some 9, None)]"
  let ?d = "example_rules [([''example.org''], Some 1, None), ([''example.com/scene''], None, None)]"
  have p: "ScrapePerformerURL ?c ?url = (Some 7, None)"
    using ScrapeURL_first_result [where c = ?c and url = ?url
        and pre = "[performer_rule [''example.org''] (Some 1, None),
                    performer_rule [''example.com/scene''] (None, None)]"
        and r = "performer_rule [''example.com''] (Some 7, None)"
        and post = "[performer_rule [''example.com''] (Some 9, None)]"
        and f = "\<lambda>c url. (Some 7, None)" and v = 7, THEN conjunct1]
    by (simp add: example_rules_def performer_rule_def matchesURL_def)
  have s: "ScrapeSceneURL ?c ?url = (Some 7, None)"
    using ScrapeURL_first_result [where c = ?c and url = ?url
        and pre' = "[scene_rule [''example.org''] (Some 1, None),
                     scene_rule [''example.com/scene''] (None, None)]"
        and r' = "scene_rule [''example.com''] (Some 7, None)"
        and post' = "[scene_rule [''example.com''] (Some 9, None)]"
        and f' = "\<lambda>c url. (Some 7, None)" and v' = 7,
        THEN conjunct2, THEN conjunct2, THEN conjunct1]
    by (simp add: example_rules_def scene_rule_def matchesURL_def)
  have pa: "ScrapePerformerURL ?d ?url = (None, None)"
    using ScrapeURL_first_result [where c = ?d and url = ?url, THEN conjunct2, THEN conjunct1]
    by (simp add: example_rules_def performer_rule_def matchesURL_def)
  have sa: "ScrapeSceneURL ?d ?url = (None, None)"
    using ScrapeURL_first_result [where c = ?d and url = ?url,
        THEN conjunct2, THEN conjunct2, THEN conjunct2]
    by (simp add: example_rules_def scene_rule_def matchesURL_def)
  from p s pa sa show ?thesis by simp
qed

text \<open>
  C4: when a handler that the dispatch calls returns an error, the dispatch returns
  that error with no result, and the rule of that handler is the last one whose
  handler is called: no rule after it is tried. The rule is identified by its
  position \<open>i\<close> in the rule list, among the positions the loop records as called.
\<close>

theorem ScrapeURL_error_short_circuits:
  "(i \<in> set (ScrapePerformerURL_calls c url)
      \<and> scrapePerformerByURLConfig.performScrape (PerformerByURL c ! i) = Some f
      \<and> snd (f (scraperTypeConfig.truncate (PerformerByURL c ! i)) url) = Some e
      \<longrightarrow> ScrapePerformerURL c url = (None, Some e)
          \<and> (\<forall>j\<in>set (ScrapePerformerURL_calls c url). j \<le> i))
   \<and> (i' \<in> set (ScrapeSceneURL_calls c url)
      \<and> scrapeSceneByURLConfig.performScrape (SceneByURL c ! i') = Some f'
      \<and> snd (f' (scraperTypeConfig.truncate (SceneByURL c ! i')) url) = Some e'
      \<longrightarrow> ScrapeSceneURL c url = (None, Some e')
          \<and> (\<forall>j\<in>set (ScrapeSceneURL_calls c url). j \<le> i'))"
proof (intro conjI impI)
  assume a: "i \<in> set (ScrapePerformerURL_calls c url)
      \<and> scrapePerformerByURLConfig.performScrape (PerformerByURL c ! i) = Some f
      \<and> snd (f (scraperTypeConfig.truncate (PerformerByURL c ! i)) url) = Some e"
  with ScrapePerformerURL_error [of i c url f e]
  show "ScrapePerformerURL c url = (None, Some e)"
    and "\<forall>j\<in>set (ScrapePerformerURL_calls c url). j \<le> i"
    by blast+
next
  assume a: "i' \<in> set (ScrapeSceneURL_calls c url)
      \<and> scrapeSceneByURLConfig.performScrape (SceneByURL c ! i') = Some f'
      \<and> snd (f' (scraperTypeConfig.truncate (SceneByURL c ! i')) url) = Some e'"
  with ScrapeSceneURL_error [of i' c url f' e']
  show "ScrapeSceneURL c url = (None, Some e')"
    and "\<forall>j\<in>set (ScrapeSceneURL_calls c url). j \<le> i'"
    by blast+
qed

theorem ScrapeURL_error_short_circuits_witness:
  "ScrapePerformerURL_calls
     (example_rules [([''example.org''], Some 1, None), ([''example.com/scene''], None, None),
                     ([''example.com''], Some 7, Some ''timeout''), ([''example.com''], Some 9, None)])
     ''https://example.com/scene/123'' = [1, 2]
   \<and> ScrapePerformerURL
     (example_rules [([''example.org''], Some 1, None), ([''example.com/scene''], None, None),
                     ([''example.com''], Some 7, Some ''timeout''), ([''example.com''], Some 9, None)])
     ''https://example.com/scene/123'' = (None, Some ''timeout'')
   \<and> ScrapeSceneURL_calls
     (example_rules [([''example.org''], Some 1, None), ([''example.com/scene''], None, None),
                     ([''example.com''], Some 7, Some ''timeout''), ([''example.com''], Some 9, None)])
     ''https://example.com/scene/123'' = [1, 2]
   \<and> ScrapeSceneURL
     (example_rules [([''example.org''], Some 1, None), ([''example.com/scene''], None, None),
                     ([''example.com''], Some 7, Some ''timeout''), ([''example.com''], Some 9, None)])
     ''https://example.com/scene/123'' = (None, Some ''timeout'')"
proof -
  let ?url = "''https://example.com/scene/123''"
  let ?c = "example_rules [([''example.org''], Some 1, None), ([''example.com/scene''], None, None),
                     ([''example.com''], Some 7, Some ''timeout''), ([''example.com''], Some 9, None)]"
  have pc: "ScrapePerformerURL_calls ?c ?url = [1, 2]"
    by (simp add: ScrapePerformerURL_calls_def example_rules_def performer_rule_def matchesURL_def)
  have sc: "ScrapeSceneURL_calls ?c ?url = [1, 2]"
    by (simp add: ScrapeSceneURL_calls_def example_rules_def scene_rule_def matchesURL_def)
  have pr: "scrapePerformerByURLConfig.performScrape (PerformerByURL ?c ! 2)
      = Some (\<lambda>c url. (Some 7, Some ''timeout''))"
    by (simp add: example_rules_def performer_rule_def)
  have sr: "scrapeSceneByURLConfig.performScrape (SceneByURL ?c ! 2)
      = Some (\<lambda>c url. (Some 7, Some ''timeout''))"
    by (simp add: example_rules_def scene_rule_def)
  have p: "ScrapePerformerURL ?c ?url = (None, Some ''timeout'')"
    using ScrapeURL_error_short_circuits [where c = ?c and url = ?url and i = 2
        and f = "\<lambda>c url. (Some 7, Some ''timeout'')" and e = "''timeout''", THEN conjunct1]
      pc pr
    by simp
  have s: "ScrapeSceneURL ?c ?url = (None, Some ''timeout'')"
    using ScrapeURL_error_short_circuits [where c = ?c and url = ?url and i' = 2
        and f' = "\<lambda>c url. (Some 7, Some ''timeout'')" and e' = "''timeout''", THEN conjunct2]
      sc sr
    by simp
  from pc sc p s show ?thesis by simp
qed


end
